theory Spec2Isabelle
  imports Complex_Main "HOL-Library.Word" "HOL-Library.AList" "HOL-Library.Sublist"
begin

section \<open>Data model\<close>

text \<open>
  The service layer of Gophermart (\<^verbatim>\<open>internal/app/services/service.go\<close>) over its
  PostgreSQL repository and the models package. A \<^verbatim>\<open>uuid.UUID\<close> is 16 bytes,
  \<^verbatim>\<open>uuid.Nil\<close> is the zero value. A \<^verbatim>\<open>decimal.Decimal\<close> is an arbitrary-precision
  decimal; \<^verbatim>\<open>Add\<close>, \<^verbatim>\<open>Sub\<close> and \<^verbatim>\<open>LessThan\<close> are exact, so amounts are rationals.
  A \<^verbatim>\<open>*decimal.Decimal\<close> is an option: \<open>None\<close> is the nil pointer.
\<close>

type_synonym uuid = "128 word"
type_synonym decimal = rat

text \<open>The sentinel errors of the customerrors package that the modelled functions return;
  \<open>ErrForeign\<close> is an error value made by another package (pgx, net/http, encoding/json,
  fmt.Errorf), identified by its message.\<close>

datatype error =
    ErrOrderNumber
  | ErrUserOrderExists
  | ErrAnotherUserOrderExists
  | ErrAccessingDB
  | ErrNotEnoughFunds
  | ErrForeign string

text \<open>What a call of a service method does: return nil, return an error, or panic.\<close>

datatype outcome = Ok | Failed error | Panics

text \<open>\<^verbatim>\<open>models.UserOrder\<close> (the upload time plays no part in the modelled functions and is
  left out) and \<^verbatim>\<open>models.AccrualResponseData\<close>.\<close>

record UserOrder =
  O_UserID :: uuid
  Number :: string
  O_Status :: string
  O_Accrual :: "decimal option"

record AccrualResponseData =
  UserID :: uuid
  Order :: string
  Status :: string
  Accrual :: "decimal option"

subsection \<open>Storage\<close>

text \<open>The tables of \<^verbatim>\<open>CreateBDTables\<close> that the modelled functions touch, as lists of rows in
  table order. The columns \<^verbatim>\<open>id\<close> and \<^verbatim>\<open>date\<close> are never read by these functions. Amounts are
  taken to fit the column type \<^verbatim>\<open>DECIMAL(9, 2)\<close>; a statement that does not fit is one of the
  failures of \<open>exec_err\<close> below.\<close>

record order_row =
  order_number :: string
  order_uuid :: uuid
  accrual :: "decimal option"
  status :: string

record balance_row =
  balance_uuid :: uuid
  user_balance :: decimal

record withdrawal_row =
  withdrawal_uuid :: uuid
  withdrawal_order :: string
  withdrawal_sum :: decimal

record db =
  orders_table :: "order_row list"
  balance_table :: "balance_row list"
  withdrawals_table :: "withdrawal_row list"

text \<open>The SQL the repository sends: the queries run on the pool, the statements run on a
  transaction. The arguments are in the order of the placeholders.\<close>

datatype query =
    SelectOrderOwner string
  | SelectProcessingOrders
  | SelectUserProcessingOrders uuid
  | SelectUserBalance uuid

datatype stmt =
    InsertOrder string uuid decimal string
  | UpdateOrder string "decimal option" string
  | UpdateBalance decimal uuid
  | InsertWithdrawal uuid string decimal

text \<open>Every access to storage is recorded, in order, and so is the request that the order
  intake sends to the accrual service (\<open>Http\<close>, with the order number of its URL): the state
  of the service is the committed tables together with this trace. The requests of the
  worker pool are sent by concurrent workers, in no order relative to the storage accesses
  of the loop that aggregates their outputs; the trace leaves them out.\<close>

datatype io = Query query | Begin | Exec stmt | Commit | Rollback | CommitFailed | Http string

record world =
  tables :: db
  trace :: "io list"

definition emit :: "io \<Rightarrow> world \<Rightarrow> world" where
  "emit e w = w\<lparr>trace := trace w @ [e]\<rparr>"

subsection \<open>The environment\<close>

text \<open>What the accrual service answers to \<^verbatim>\<open>GET /api/orders/{number}\<close>, as
  \<^verbatim>\<open>GetAccrualAPI\<close> sees it: the request cannot be built, the request cannot be sent, or a
  response with a status code, a status line and a body. The body cannot be read, cannot be
  parsed, or parses to the fields \<^verbatim>\<open>order\<close>, \<^verbatim>\<open>status\<close> and \<^verbatim>\<open>accrual\<close> (absent: \<open>None\<close>).\<close>

datatype body = Unreadable string | Malformed string | Parsed string string "decimal option"

datatype reply = RequestError string | TransportError string | Response nat string body

text \<open>Everything outside the service: the accrual service, the order in which the outputs
  of the concurrent workers reach the aggregating loop, and the failures of the database
  driver (\<open>None\<close>: the call succeeds).\<close>

record env =
  accrual_service :: "string \<Rightarrow> reply"
  schedule :: "UserOrder list \<Rightarrow> UserOrder list"
  query_err :: "query \<Rightarrow> string option"
  begin_err :: "string option"
  exec_err :: "stmt \<Rightarrow> string option"
  commit_err :: "string option"

section \<open>The Luhn check\<close>

text \<open>
  \<^verbatim>\<open>digit, _ := strconv.Atoi(string(r))\<close> on the one-rune string: the value of an ASCII
  digit, and 0 with the error dropped for anything else (a sign alone is an error too).

  \<^verbatim>\<open>for i, r := range number\<close> walks the runes of the string with \<open>i\<close> the byte offset of
  each, and \<^verbatim>\<open>len(number)\<close> counts bytes. A rune outside ASCII has the digit 0 and adds
  nothing to the sum wherever it stands, and a byte below 128 always decodes as itself at
  its own offset; so the loop is the same walk over the bytes of the string, which is
  what \<open>string\<close> holds. The variable \<^verbatim>\<open>sum\<close> is \<open>s\<close> here.
\<close>

definition atoi :: "char \<Rightarrow> nat" where
  "atoi r = (let n = of_char r :: nat in if 48 \<le> n \<and> n \<le> 57 then n - 48 else 0)"

fun luhn_loop :: "nat \<Rightarrow> nat \<Rightarrow> string \<Rightarrow> nat \<Rightarrow> nat" where
  "luhn_loop parity i [] s = s"
| "luhn_loop parity i (r # rs) s =
     (let digit = atoi r;
          digit = (if i mod 2 = parity
                   then (let digit = digit * 2 in if digit > 9 then digit - 9 else digit)
                   else digit)
      in luhn_loop parity (i + 1) rs (s + digit))"

definition isValidLuhn :: "string \<Rightarrow> bool" where
  "isValidLuhn number =
     (let nDigits = length number; parity = nDigits mod 2
      in luhn_loop parity 0 number 0 mod 10 = 0)"

section \<open>The repository\<close>

text \<open>The result of a \<^verbatim>\<open>QueryRow(...).Scan\<close>: a value, \<^verbatim>\<open>pgx.ErrNoRows\<close>, or another error.
  The repository wraps both errors with \<^verbatim>\<open>%w\<close>, so \<^verbatim>\<open>errors.Is(err, pgx.ErrNoRows)\<close> still
  tells them apart.\<close>

datatype 'a row = Found 'a | NoRows | QueryFailed string

definition GetUUIDFromOrders :: "env \<Rightarrow> string \<Rightarrow> world \<Rightarrow> uuid row \<times> world" where
  "GetUUIDFromOrders e orderNumber w =
     (case query_err e (SelectOrderOwner orderNumber) of
        Some m \<Rightarrow> QueryFailed m
      | None \<Rightarrow>
          (case find (\<lambda>r. order_number r = orderNumber) (orders_table (tables w)) of
             None \<Rightarrow> NoRows
           | Some r \<Rightarrow> Found (order_uuid r)),
      emit (Query (SelectOrderOwner orderNumber)) w)"

definition selectBalance :: "env \<Rightarrow> db \<Rightarrow> uuid \<Rightarrow> decimal row" where
  "selectBalance e d userID =
     (case query_err e (SelectUserBalance userID) of
        Some m \<Rightarrow> QueryFailed m
      | None \<Rightarrow>
          (case find (\<lambda>r. balance_uuid r = userID) (balance_table d) of
             None \<Rightarrow> NoRows
           | Some r \<Rightarrow> Found (user_balance r)))"

definition GetUserBalance :: "env \<Rightarrow> uuid \<Rightarrow> world \<Rightarrow> decimal row \<times> world" where
  "GetUserBalance e userID w =
     (selectBalance e (tables w) userID, emit (Query (SelectUserBalance userID)) w)"

text \<open>\<^verbatim>\<open>GetProcessingOrders\<close> scans number, status and owner of every order whose status is
  REGISTERED, PROCESSING or NEW; \<^verbatim>\<open>GetUserProcessingOrders\<close> scans number and status only
  (the owner stays \<^verbatim>\<open>uuid.Nil\<close>) of the user's orders whose status is NEW or PROCESSING.\<close>

definition GetProcessingOrders :: "env \<Rightarrow> world \<Rightarrow> (error + UserOrder list) \<times> world" where
  "GetProcessingOrders e w =
     (case query_err e SelectProcessingOrders of
        Some m \<Rightarrow> Inl (ErrForeign m)
      | None \<Rightarrow>
          Inr (map (\<lambda>r. \<lparr>O_UserID = order_uuid r, Number = order_number r,
                          O_Status = status r, O_Accrual = None\<rparr>)
                 (filter (\<lambda>r. status r = ''REGISTERED'' \<or> status r = ''PROCESSING''
                                \<or> status r = ''NEW'')
                    (orders_table (tables w)))),
      emit (Query SelectProcessingOrders) w)"

definition GetUserProcessingOrders ::
  "env \<Rightarrow> uuid \<Rightarrow> world \<Rightarrow> (error + UserOrder list) \<times> world" where
  "GetUserProcessingOrders e userID w =
     (case query_err e (SelectUserProcessingOrders userID) of
        Some m \<Rightarrow> Inl (ErrForeign m)
      | None \<Rightarrow>
          Inr (map (\<lambda>r. \<lparr>O_UserID = 0, Number = order_number r,
                          O_Status = status r, O_Accrual = None\<rparr>)
                 (filter (\<lambda>r. order_uuid r = userID
                                \<and> (status r = ''NEW'' \<or> status r = ''PROCESSING''))
                    (orders_table (tables w)))),
      emit (Query (SelectUserProcessingOrders userID)) w)"

text \<open>What a statement does to the tables when the database accepts it. The only
  constraint of the schema that these statements can break inside the model is the
  uniqueness of \<^verbatim>\<open>order_number\<close>. An \<^verbatim>\<open>UPDATE\<close> changes every row its \<^verbatim>\<open>WHERE\<close> selects, and
  none is not an error.\<close>

fun apply_stmt :: "stmt \<Rightarrow> db \<Rightarrow> string + db" where
  "apply_stmt (InsertOrder n u a s) d =
     (if n \<in> set (map order_number (orders_table d))
      then Inl ''duplicate key value violates unique constraint''
      else Inr (d\<lparr>orders_table := orders_table d @
                  [\<lparr>order_number = n, order_uuid = u, accrual = Some a, status = s\<rparr>]\<rparr>))"
| "apply_stmt (UpdateOrder s a n) d =
     Inr (d\<lparr>orders_table := map (\<lambda>r. if order_number r = n then r\<lparr>status := s, accrual := a\<rparr> else r)
                        (orders_table d)\<rparr>)"
| "apply_stmt (UpdateBalance b u) d =
     Inr (d\<lparr>balance_table := map (\<lambda>r. if balance_uuid r = u then r\<lparr>user_balance := b\<rparr> else r)
                         (balance_table d)\<rparr>)"
| "apply_stmt (InsertWithdrawal u n s) d =
     Inr (d\<lparr>withdrawals_table := withdrawals_table d @
            [\<lparr>withdrawal_uuid = u, withdrawal_order = n, withdrawal_sum = s\<rparr>]\<rparr>)"

text \<open>\<^verbatim>\<open>tx.Exec\<close>: inside a transaction the tables of the world are the transaction's working
  copy. The result is the driver's error, if any.\<close>

definition exec :: "env \<Rightarrow> stmt \<Rightarrow> world \<Rightarrow> string option \<times> world" where
  "exec e s tx =
     (let tx' = emit (Exec s) tx in
      case exec_err e s of
        Some m \<Rightarrow> (Some m, tx')
      | None \<Rightarrow>
          (case apply_stmt s (tables tx') of
             Inl m \<Rightarrow> (Some m, tx')
           | Inr d \<Rightarrow> (None, tx'\<lparr>tables := d\<rparr>)))"

definition StoreUserOrder ::
  "env \<Rightarrow> string \<Rightarrow> string \<Rightarrow> uuid \<Rightarrow> decimal \<Rightarrow> world \<Rightarrow> string option \<times> world" where
  "StoreUserOrder e orderNumber orderStatus userID bonus tx =
     exec e (InsertOrder orderNumber userID bonus orderStatus) tx"

definition StoreUserWithdrawal ::
  "env \<Rightarrow> uuid \<Rightarrow> string \<Rightarrow> decimal \<Rightarrow> world \<Rightarrow> string option \<times> world" where
  "StoreUserWithdrawal e userID orderNumber amount tx =
     exec e (InsertWithdrawal userID orderNumber amount) tx"

definition UpdateUserBalance ::
  "env \<Rightarrow> uuid \<Rightarrow> decimal \<Rightarrow> world \<Rightarrow> string option \<times> world" where
  "UpdateUserBalance e userID newBalance tx = exec e (UpdateBalance newBalance userID) tx"

fun UpdateOrders :: "env \<Rightarrow> AccrualResponseData list \<Rightarrow> world \<Rightarrow> string option \<times> world" where
  "UpdateOrders e [] tx = (None, tx)"
| "UpdateOrders e (order # rest) tx =
     (case exec e (UpdateOrder (Status order) (Accrual order) (Order order)) tx of
        (Some m, tx') \<Rightarrow> (Some m, tx')
      | (None, tx') \<Rightarrow> UpdateOrders e rest tx')"

text \<open>\<^verbatim>\<open>usersBalanceToUpdate\<close> is a Go map, kept here as an association list with one entry
  per key. Go ranges over it in no fixed order; the keys are distinct, so the updates do
  not depend on the order, and the list is walked front to back.\<close>

fun UsersBalanceUpdate :: "env \<Rightarrow> (uuid \<times> decimal) list \<Rightarrow> world \<Rightarrow> string option \<times> world" where
  "UsersBalanceUpdate e [] tx = (None, tx)"
| "UsersBalanceUpdate e ((userID, newBalance) # rest) tx =
     (case exec e (UpdateBalance newBalance userID) tx of
        (Some m, tx') \<Rightarrow> (Some m, tx')
      | (None, tx') \<Rightarrow> UsersBalanceUpdate e rest tx')"

section \<open>The service\<close>

subsection \<open>withTransaction\<close>

text \<open>
  \<^verbatim>\<open>withTransaction\<close> begins a transaction on the pool and runs \<^verbatim>\<open>txFunc\<close> on it. The
  deferred closure rolls back and panics again when \<^verbatim>\<open>txFunc\<close> panicked, rolls back when
  it returned an error, and commits otherwise. A rollback, and a commit that fails, leave
  the tables as they were when the transaction began. The function's result is not a
  named one, so \<^verbatim>\<open>return err\<close> has fixed it before the deferred closure assigns the
  error of \<^verbatim>\<open>tx.Commit\<close> to the variable: a failed commit is not reported.
\<close>

definition withTransaction ::
  "env \<Rightarrow> (world \<Rightarrow> outcome \<times> world) \<Rightarrow> world \<Rightarrow> outcome \<times> world" where
  "withTransaction e txFunc w =
     (case begin_err e of
        Some m \<Rightarrow> (Failed (ErrForeign m), w)
      | None \<Rightarrow>
          (case txFunc (emit Begin w) of
             (Panics, tx) \<Rightarrow> (Panics, \<lparr>tables = tables w, trace = trace tx @ [Rollback]\<rparr>)
           | (Failed err, tx) \<Rightarrow>
               (Failed err, \<lparr>tables = tables w, trace = trace tx @ [Rollback]\<rparr>)
           | (Ok, tx) \<Rightarrow>
               (case commit_err e of
                  None \<Rightarrow> (Ok, emit Commit tx)
                | Some m \<Rightarrow> (Ok, \<lparr>tables = tables w, trace = trace tx @ [CommitFailed]\<rparr>))))"

subsection \<open>GetAccrualAPI\<close>

definition GetAccrualAPI :: "env \<Rightarrow> UserOrder \<Rightarrow> error + AccrualResponseData" where
  "GetAccrualAPI e order =
     (case accrual_service e (Number order) of
        RequestError m \<Rightarrow> Inl (ErrForeign m)
      | TransportError m \<Rightarrow> Inl (ErrForeign m)
      | Response StatusCode status_line b \<Rightarrow>
          if StatusCode = 429 \<or> StatusCode = 204
          then Inr \<lparr>UserID = O_UserID order, Order = Number order,
                    Status = ''NEW'', Accrual = None\<rparr>
          else if StatusCode = 500
          then Inl (ErrForeign (''internal server error: '' @ status_line))
          else (case b of
                  Unreadable m \<Rightarrow> Inl (ErrForeign m)
                | Malformed m \<Rightarrow> Inl (ErrForeign m)
                | Parsed order_field status_field accrual_field \<Rightarrow>
                    Inr \<lparr>UserID = O_UserID order, Order = order_field,
                         Status = status_field, Accrual = accrual_field\<rparr>))"

subsection \<open>InputUserOrder\<close>

text \<open>
  What a call of \<^verbatim>\<open>GetAccrualAPI\<close> puts on the network: \<^verbatim>\<open>client.Do(req)\<close> sends the
  request, unless \<^verbatim>\<open>http.NewRequestWithContext\<close> has failed before.
\<close>

definition sent :: "env \<Rightarrow> UserOrder \<Rightarrow> world \<Rightarrow> world" where
  "sent e order w =
     (case accrual_service e (Number order) of
        RequestError m \<Rightarrow> w
      | TransportError m \<Rightarrow> emit (Http (Number order)) w
      | Response StatusCode status_line b \<Rightarrow> emit (Http (Number order)) w)"

text \<open>
  The goroutine sends the error of \<^verbatim>\<open>GetAccrualAPI\<close> on \<^verbatim>\<open>errCh\<close> or its data on
  \<^verbatim>\<open>resultCh\<close>, and closes both channels only after the send has been received; the
  \<^verbatim>\<open>select\<close> therefore receives exactly what was sent, after the request of
  \<^verbatim>\<open>GetAccrualAPI\<close> and before anything that follows. The order asked about has only its
  number set. On a result, \<^verbatim>\<open>userBalance.Add(*accrualData.Accrual)\<close> dereferences the
  pointer before the transaction is begun: a nil \<^verbatim>\<open>Accrual\<close> panics there. The closure
  given to \<^verbatim>\<open>withTransaction\<close> is \<open>inputTx\<close>; it dereferences the pointer again, and tests
  it for nil only afterwards, where the test always succeeds.
  \<^verbatim>\<open>GetUserBalance\<close> returns \<^verbatim>\<open>decimal.Zero\<close> with its error, and \<^verbatim>\<open>pgx.ErrNoRows\<close> is let
  through.
\<close>

definition inputTx ::
  "env \<Rightarrow> string \<Rightarrow> string \<Rightarrow> uuid \<Rightarrow> decimal option \<Rightarrow> decimal \<Rightarrow> world
   \<Rightarrow> outcome \<times> world" where
  "inputTx e orderNumber orderStatus userID accrualPtr newUserBalance tx =
     (case accrualPtr of
        None \<Rightarrow> (Panics, tx)
      | Some a \<Rightarrow>
          (case StoreUserOrder e orderNumber orderStatus userID a tx of
             (Some m, tx') \<Rightarrow> (Failed ErrAccessingDB, tx')
           | (None, tx') \<Rightarrow>
               (case UpdateUserBalance e userID newUserBalance tx' of
                  (Some m, tx'') \<Rightarrow> (Failed ErrAccessingDB, tx'')
                | (None, tx'') \<Rightarrow> (Ok, tx''))))"

definition InputUserOrder :: "env \<Rightarrow> uuid \<Rightarrow> string \<Rightarrow> world \<Rightarrow> outcome \<times> world" where
  "InputUserOrder e userID orderNumber w =
     (if \<not> isValidLuhn orderNumber then (Failed ErrOrderNumber, w)
      else
        (case GetUUIDFromOrders e orderNumber w of
           (Found savedUserID, w1) \<Rightarrow>
             if savedUserID = userID then (Failed ErrUserOrderExists, w1)
             else (Failed ErrAnotherUserOrderExists, w1)
         | (QueryFailed m, w1) \<Rightarrow> (Failed ErrAccessingDB, w1)
         | (NoRows, w0) \<Rightarrow>
             (let order = \<lparr>O_UserID = 0, Number = orderNumber,
                           O_Status = [], O_Accrual = None\<rparr>;
                  w1 = sent e order w0
              in case GetAccrualAPI e order of
                Inl err \<Rightarrow> (Failed err, w1)
              | Inr responseData \<Rightarrow>
                  (let accrualData =
                         (if Status responseData = ''REGISTERED''
                          then responseData\<lparr>Status := ''NEW''\<rparr> else responseData)
                   in case GetUserBalance e userID w1 of
                        (QueryFailed m, w2) \<Rightarrow> (Failed ErrAccessingDB, w2)
                      | (r, w2) \<Rightarrow>
                          (let userBalance = (case r of Found b \<Rightarrow> b | _ \<Rightarrow> 0)
                           in case Accrual accrualData of
                                None \<Rightarrow> (Panics, w2)
                              | Some a \<Rightarrow>
                                  (let newUserBalance = userBalance + a
                                   in withTransaction e
                                        (inputTx e orderNumber (Status accrualData) userID
                                           (Accrual accrualData) newUserBalance)
                                        w2))))))"

subsection \<open>The worker pool\<close>

text \<open>
  A worker takes a task, asks the accrual service, and sends the error on \<^verbatim>\<open>errCh\<close>, or the
  data on \<^verbatim>\<open>resultCh\<close> when its status differs from the task's, or nothing. Both channels
  are unbuffered, so the aggregating loop receives the workers' outputs one at a time, in
  an order that the Go scheduler decides: \<open>schedule\<close> gives the order in which the tasks'
  outputs arrive.
\<close>

datatype message = Result AccrualResponseData | Error error

definition worker :: "env \<Rightarrow> UserOrder \<Rightarrow> message option" where
  "worker e task =
     (case GetAccrualAPI e task of
        Inl err \<Rightarrow> Some (Error err)
      | Inr responseData \<Rightarrow>
          if O_Status task \<noteq> Status responseData then Some (Result responseData) else None)"

definition startWorkers :: "env \<Rightarrow> UserOrder list \<Rightarrow> message list" where
  "startWorkers e tasks = List.map_filter (worker e) (schedule e tasks)"

subsection \<open>RunUpdateOrdersStatusJob\<close>

text \<open>The loop \<^verbatim>\<open>for !done\<close> of the job over the messages in arrival order; it ends when
  both channels are closed, that is when the messages are used up.\<close>

fun jobLoop ::
  "env \<Rightarrow> message list \<Rightarrow> AccrualResponseData list \<Rightarrow> (uuid \<times> decimal) list \<Rightarrow> world
   \<Rightarrow> (error + AccrualResponseData list \<times> (uuid \<times> decimal) list) \<times> world" where
  "jobLoop e [] ordersToUpdate usersBalanceToUpdate w =
     (Inr (ordersToUpdate, usersBalanceToUpdate), w)"
| "jobLoop e (Error err # ms) ordersToUpdate usersBalanceToUpdate w = (Inl err, w)"
| "jobLoop e (Result accrualData # ms) ordersToUpdate usersBalanceToUpdate w =
     (let ordersToUpdate = ordersToUpdate @ [accrualData] in
      case Accrual accrualData of
        None \<Rightarrow> jobLoop e ms ordersToUpdate usersBalanceToUpdate w
      | Some a \<Rightarrow>
          (case GetUserBalance e (UserID accrualData) w of
             (Found userBalance, w') \<Rightarrow>
               jobLoop e ms ordersToUpdate
                 (AList.update (UserID accrualData) (userBalance + a) usersBalanceToUpdate) w'
           | (_, w') \<Rightarrow> (Inl ErrAccessingDB, w')))"

definition jobTx ::
  "env \<Rightarrow> AccrualResponseData list \<Rightarrow> (uuid \<times> decimal) list \<Rightarrow> world \<Rightarrow> outcome \<times> world" where
  "jobTx e ordersToUpdate usersBalanceToUpdate tx =
     (case UsersBalanceUpdate e usersBalanceToUpdate tx of
        (Some m, tx') \<Rightarrow> (Failed ErrAccessingDB, tx')
      | (None, tx') \<Rightarrow>
          if length ordersToUpdate > 0
          then (case UpdateOrders e ordersToUpdate tx' of
                  (Some m, tx'') \<Rightarrow> (Failed ErrAccessingDB, tx'')
                | (None, tx'') \<Rightarrow> (Ok, tx''))
          else (Ok, tx'))"

definition RunUpdateOrdersStatusJob :: "env \<Rightarrow> world \<Rightarrow> outcome \<times> world" where
  "RunUpdateOrdersStatusJob e w =
     (case GetProcessingOrders e w of
        (Inl err, w1) \<Rightarrow> (Failed err, w1)
      | (Inr processingOrders, w1) \<Rightarrow>
          (case jobLoop e (startWorkers e processingOrders) [] [] w1 of
             (Inl err, w2) \<Rightarrow> (Failed err, w2)
           | (Inr (ordersToUpdate, usersBalanceToUpdate), w2) \<Rightarrow>
               withTransaction e (jobTx e ordersToUpdate usersBalanceToUpdate) w2))"

subsection \<open>CheckUpdateUserOrders\<close>

fun userLoop ::
  "message list \<Rightarrow> AccrualResponseData list \<Rightarrow> decimal
   \<Rightarrow> error + AccrualResponseData list \<times> decimal" where
  "userLoop [] ordersToUpdate accrualToUpdate = Inr (ordersToUpdate, accrualToUpdate)"
| "userLoop (Error err # ms) ordersToUpdate accrualToUpdate = Inl err"
| "userLoop (Result accrualData # ms) ordersToUpdate accrualToUpdate =
     userLoop ms (ordersToUpdate @ [accrualData])
       (case Accrual accrualData of
          None \<Rightarrow> accrualToUpdate
        | Some a \<Rightarrow> accrualToUpdate + a)"

definition userTx ::
  "env \<Rightarrow> uuid \<Rightarrow> decimal \<Rightarrow> AccrualResponseData list \<Rightarrow> world \<Rightarrow> outcome \<times> world" where
  "userTx e userID newUserBalance ordersToUpdate tx =
     (case UpdateUserBalance e userID newUserBalance tx of
        (Some m, tx') \<Rightarrow> (Failed ErrAccessingDB, tx')
      | (None, tx') \<Rightarrow>
          if length ordersToUpdate > 0
          then (case UpdateOrders e ordersToUpdate tx' of
                  (Some m, tx'') \<Rightarrow> (Failed ErrAccessingDB, tx'')
                | (None, tx'') \<Rightarrow> (Ok, tx''))
          else (Ok, tx'))"

definition CheckUpdateUserOrders :: "env \<Rightarrow> uuid \<Rightarrow> world \<Rightarrow> outcome \<times> world" where
  "CheckUpdateUserOrders e userID w =
     (case GetUserProcessingOrders e userID w of
        (Inl err, w1) \<Rightarrow> (Failed err, w1)
      | (Inr orders, w1) \<Rightarrow>
          (case userLoop (startWorkers e orders) [] 0 of
             Inl err \<Rightarrow> (Failed err, w1)
           | Inr (ordersToUpdate, accrualToUpdate) \<Rightarrow>
               (case GetUserBalance e userID w1 of
                  (Found userBalance, w2) \<Rightarrow>
                    (let newUserBalance = userBalance + accrualToUpdate
                     in withTransaction e (userTx e userID newUserBalance ordersToUpdate) w2)
                | (_, w2) \<Rightarrow> (Failed ErrAccessingDB, w2))))"

subsection \<open>WithdrawalBonusForNewOrder\<close>

definition withdrawalTx ::
  "env \<Rightarrow> uuid \<Rightarrow> string \<Rightarrow> decimal \<Rightarrow> decimal \<Rightarrow> world \<Rightarrow> outcome \<times> world" where
  "withdrawalTx e userID orderNumber amount newUserBalance tx =
     (case StoreUserWithdrawal e userID orderNumber amount tx of
        (Some m, tx') \<Rightarrow> (Failed (ErrForeign m), tx')
      | (None, tx') \<Rightarrow>
          (case UpdateUserBalance e userID newUserBalance tx' of
             (Some m, tx'') \<Rightarrow> (Failed (ErrForeign m), tx'')
           | (None, tx'') \<Rightarrow> (Ok, tx'')))"

definition WithdrawalBonusForNewOrder ::
  "env \<Rightarrow> uuid \<Rightarrow> string \<Rightarrow> decimal \<Rightarrow> world \<Rightarrow> outcome \<times> world" where
  "WithdrawalBonusForNewOrder e userID orderNumber amount w =
     (if \<not> isValidLuhn orderNumber then (Failed ErrOrderNumber, w)
      else
        (case GetUserBalance e userID w of
           (Found userBalance, w1) \<Rightarrow>
             if userBalance < amount then (Failed ErrNotEnoughFunds, w1)
             else (let newUserBalance = userBalance - amount
                   in withTransaction e
                        (withdrawalTx e userID orderNumber amount newUserBalance) w1)
         | (_, w1) \<Rightarrow> (Failed ErrAccessingDB, w1)))"

section \<open>Reference definitions and example data\<close>

subsection \<open>The Luhn checksum\<close>

text \<open>
  Stated from the words of the specification, to compare \<open>isValidLuhn\<close> with: the Luhn
  checksum of a sequence of decimal digits. Counting from the rightmost digit, which is
  not doubled, every second digit is doubled, and 9 is taken off a double above 9; the
  sequence satisfies the checksum when the sum of the resulting digits is a multiple
  of 10.
\<close>

definition double_digit :: "nat \<Rightarrow> nat" where
  "double_digit d = (if d * 2 > 9 then d * 2 - 9 else d * 2)"

fun luhn_alt :: "bool \<Rightarrow> nat list \<Rightarrow> nat" where
  "luhn_alt b [] = 0"
| "luhn_alt b (d # ds) = (if b then double_digit d else d) + luhn_alt (\<not> b) ds"

definition luhn_checksum :: "nat list \<Rightarrow> bool" where
  "luhn_checksum ds = (luhn_alt False (rev ds) mod 10 = 0)"

definition is_digit :: "char \<Rightarrow> bool" where
  "is_digit c = (48 \<le> (of_char c :: nat) \<and> (of_char c :: nat) \<le> 57)"

definition digit_value :: "char \<Rightarrow> nat" where
  "digit_value c = of_char c - 48"

text \<open>The sum of \<open>luhn_loop\<close> read from the left: a digit is doubled when an odd number of
  digits follow it.\<close>

fun luhn_fwd :: "nat list \<Rightarrow> nat" where
  "luhn_fwd [] = 0"
| "luhn_fwd (d # ds) = (if odd (length ds) then double_digit d else d) + luhn_fwd ds"

text \<open>A byte that is not an ASCII digit replaced by the digit 0.\<close>

definition zero_subst :: "char \<Rightarrow> char" where
  "zero_subst c = (if is_digit c then c else CHR ''0'')"

text \<open>
  The same substitution on characters, stated from the words of the specification: the
  string with every character that is not a digit replaced by the digit 0. A character
  is what \<^verbatim>\<open>range\<close> over a Go string decodes: an ASCII byte, a well-formed UTF-8 sequence
  of two to four bytes, or a single byte that begins no such sequence. \<open>rune_width\<close> is
  the number of bytes of the first character of a string, after the table of
  \<^verbatim>\<open>utf8.DecodeRuneInString\<close>: the range of the second byte depends on the first.
\<close>

definition cont :: "char \<Rightarrow> bool" where
  "cont c = (128 \<le> (of_char c :: nat) \<and> (of_char c :: nat) \<le> 191)"

definition second :: "nat \<Rightarrow> char \<Rightarrow> bool" where
  "second b c =
     ((if b = 224 then 160 else if b = 240 then 144 else 128) \<le> (of_char c :: nat) \<and>
      (of_char c :: nat) \<le> (if b = 237 then 159 else if b = 244 then 143 else 191))"

fun rune_width :: "string \<Rightarrow> nat" where
  "rune_width [] = 0"
| "rune_width (c # cs) =
     (let b = (of_char c :: nat) in
      if b < 194 \<or> 244 < b then 1
      else if b < 224 then
        (case cs of c1 # _ \<Rightarrow> if second b c1 then 2 else 1 | _ \<Rightarrow> 1)
      else if b < 240 then
        (case cs of c1 # c2 # _ \<Rightarrow> if second b c1 \<and> cont c2 then 3 else 1 | _ \<Rightarrow> 1)
      else
        (case cs of
           c1 # c2 # c3 # _ \<Rightarrow> if second b c1 \<and> cont c2 \<and> cont c3 then 4 else 1
         | _ \<Rightarrow> 1))"

text \<open>\<open>zero_runes k s\<close>: the substitution on \<open>s\<close> once the \<open>k\<close> bytes that remain of the
  character before it have been passed.\<close>

fun zero_runes :: "nat \<Rightarrow> string \<Rightarrow> string" where
  "zero_runes k [] = []"
| "zero_runes 0 (c # cs) = zero_subst c # zero_runes (rune_width (c # cs) - 1) cs"
| "zero_runes (Suc k) (c # cs) = zero_runes k cs"

definition rune_zero_subst :: "string \<Rightarrow> string" where
  "rune_zero_subst s = zero_runes 0 s"

text \<open>The strings \<^verbatim>\<open>"1\u00e99"\<close> and \<^verbatim>\<open>"1\u00e98"\<close> in UTF-8: the letter e with an acute
  accent is the two bytes C3 A9.\<close>

definition accented_9 :: string where
  "accented_9 = [CHR ''1'', CHR 0xC3, CHR 0xA9, CHR ''9'']"

definition accented_8 :: string where
  "accented_8 = [CHR ''1'', CHR 0xC3, CHR 0xA9, CHR ''8'']"

subsection \<open>Example data\<close>

text \<open>An environment in which the database never fails and the workers' outputs arrive in
  the order of the tasks, around a given accrual service.\<close>

definition quiet_env :: "(string \<Rightarrow> reply) \<Rightarrow> env" where
  "quiet_env svc =
     \<lparr>accrual_service = svc, schedule = (\<lambda>tasks. tasks), query_err = (\<lambda>q. None),
      begin_err = None, exec_err = (\<lambda>s. None), commit_err = None\<rparr>"

definition no_content :: "string \<Rightarrow> reply" where
  "no_content n = Response 204 ''204 No Content'' (Unreadable [])"

text \<open>One user, with a balance of 100 and two orders waiting with status NEW.\<close>

definition shop :: world where
  "shop =
     \<lparr>tables =
        \<lparr>orders_table =
           [\<lparr>order_number = ''18'', order_uuid = 1, accrual = None, status = ''NEW''\<rparr>,
            \<lparr>order_number = ''26'', order_uuid = 1, accrual = None, status = ''NEW''\<rparr>],
         balance_table = [\<lparr>balance_uuid = 1, user_balance = 100\<rparr>],
         withdrawals_table = []\<rparr>,
      trace = []\<rparr>"

text \<open>Accrual services for the examples: one that has registered every order and not yet
  computed anything, one that has registered every order with an accrual of zero, and one
  that has processed the two orders of \<open>shop\<close> with accruals of 10 and 20.\<close>

definition registered :: "string \<Rightarrow> reply" where
  "registered n = Response 200 ''200 OK'' (Parsed n ''REGISTERED'' None)"

definition registered_zero :: "string \<Rightarrow> reply" where
  "registered_zero n = Response 200 ''200 OK'' (Parsed n ''REGISTERED'' (Some 0))"

definition processed :: "string \<Rightarrow> reply" where
  "processed n =
     (if n = ''18'' then Response 200 ''200 OK'' (Parsed ''18'' ''PROCESSED'' (Some 10))
      else if n = ''26'' then Response 200 ''200 OK'' (Parsed ''26'' ''PROCESSED'' (Some 20))
      else Response 204 ''204 No Content'' (Unreadable []))"

subsection \<open>Statements of a transaction\<close>

text \<open>The statements that \<open>UpdateOrders\<close> and \<open>UsersBalanceUpdate\<close> send for one element, a
  run of statements until the first that fails (the shape of both loops), and what a list
  of statements does to the tables when every one is accepted.\<close>

definition order_stmt :: "AccrualResponseData \<Rightarrow> stmt" where
  "order_stmt r = UpdateOrder (Status r) (Accrual r) (Order r)"

definition balance_stmt :: "uuid \<times> decimal \<Rightarrow> stmt" where
  "balance_stmt p = UpdateBalance (snd p) (fst p)"

fun exec_all :: "env \<Rightarrow> stmt list \<Rightarrow> world \<Rightarrow> string option \<times> world" where
  "exec_all e [] tx = (None, tx)"
| "exec_all e (s # ss) tx =
     (case exec e s tx of
        (Some m, tx') \<Rightarrow> (Some m, tx')
      | (None, tx') \<Rightarrow> exec_all e ss tx')"

fun run_stmts :: "stmt list \<Rightarrow> db \<Rightarrow> db" where
  "run_stmts [] d = d"
| "run_stmts (s # ss) d = (case apply_stmt s d of Inl m \<Rightarrow> d | Inr d' \<Rightarrow> run_stmts ss d')"

text \<open>The statements executed between two states of the world, read off the trace, and
  the relation between the state before a call and the state after it that makes the
  call atomic: the tables are as before, or the call ended in a commit and the tables are
  what all the executed statements together make of the tables before.\<close>

definition stmt_of :: "io \<Rightarrow> stmt option" where
  "stmt_of ev = (case ev of Exec s \<Rightarrow> Some s | _ \<Rightarrow> None)"

definition executed :: "world \<Rightarrow> world \<Rightarrow> stmt list" where
  "executed w w' = List.map_filter stmt_of (drop (length (trace w)) (trace w'))"

definition all_or_nothing :: "world \<Rightarrow> world \<Rightarrow> bool" where
  "all_or_nothing w w' =
     (tables w' = tables w \<or>
      (last (trace w') = Commit \<and> tables w' = run_stmts (executed w w') (tables w)))"


text \<open>The environment of \<open>quiet_env processed\<close> with a database that refuses the update of
  order 26, and the results and balances that the system-wide sweep of \<open>shop\<close> collects
  there.\<close>

definition broken :: env where
  "broken =
     (quiet_env processed)
       \<lparr>exec_err := (\<lambda>s. if s = UpdateOrder ''PROCESSED'' (Some 20) ''26''
                          then Some ''connection lost'' else None)\<rparr>"

definition shop_results :: "AccrualResponseData list" where
  "shop_results =
     [\<lparr>UserID = 1, Order = ''18'', Status = ''PROCESSED'', Accrual = Some 10\<rparr>,
      \<lparr>UserID = 1, Order = ''26'', Status = ''PROCESSED'', Accrual = Some 20\<rparr>]"





subsection \<open>Orders answered with 429 or 204\<close>

text \<open>An order number for which the accrual service answers 429 or 204, and the data that
  \<open>GetAccrualAPI\<close> makes of such an answer for a task.\<close>

definition limited :: "env \<Rightarrow> string \<Rightarrow> bool" where
  "limited e n =
     (case accrual_service e n of
        Response StatusCode status_line b \<Rightarrow> StatusCode = 429 \<or> StatusCode = 204
      | _ \<Rightarrow> False)"

definition new_result :: "UserOrder \<Rightarrow> AccrualResponseData" where
  "new_result task =
     \<lparr>UserID = O_UserID task, Order = Number task, Status = ''NEW'', Accrual = None\<rparr>"

text \<open>One user with an order stored as NEW and an order stored as PROCESSING.\<close>

definition queue :: world where
  "queue =
     \<lparr>tables =
        \<lparr>orders_table =
           [\<lparr>order_number = ''18'', order_uuid = 1, accrual = Some 0, status = ''NEW''\<rparr>,
            \<lparr>order_number = ''26'', order_uuid = 1, accrual = Some 0, status = ''PROCESSING''\<rparr>],
         balance_table = [\<lparr>balance_uuid = 1, user_balance = 100\<rparr>],
         withdrawals_table = []\<rparr>,
      trace = []\<rparr>"

text \<open>The tasks that the queries for waiting orders make of the orders of \<open>queue\<close>.\<close>

definition queue_tasks :: "uuid \<Rightarrow> UserOrder list" where
  "queue_tasks owner =
     [\<lparr>O_UserID = owner, Number = ''18'', O_Status = ''NEW'', O_Accrual = None\<rparr>,
      \<lparr>O_UserID = owner, Number = ''26'', O_Status = ''PROCESSING'', O_Accrual = None\<rparr>]"

section \<open>Properties\<close>

subsection \<open>The Luhn check\<close>

lemma luhn_loop_fwd:
  "(i + length rs) mod 2 = parity \<Longrightarrow> luhn_loop parity i rs s = s + luhn_fwd (map atoi rs)"
proof (induction rs arbitrary: i s)
  case Nil
  then show ?case by simp
next
  case (Cons r rs)
  have step: "(Suc i + length rs) mod 2 = parity" using Cons.prems by simp
  have par: "(i mod 2 = parity) = odd (length rs)" using Cons.prems by simp presburger
  have IH: "luhn_loop parity (Suc i) rs s' = s' + luhn_fwd (map atoi rs)" for s'
    by (rule Cons.IH [OF step])
  show ?case
    by (simp add: IH par double_digit_def Let_def)
qed

lemma isValidLuhn_fwd: "isValidLuhn number = (luhn_fwd (map atoi number) mod 10 = 0)"
  by (simp add: isValidLuhn_def luhn_loop_fwd)

lemma luhn_alt_snoc:
  "luhn_alt b (xs @ [d]) = luhn_alt b xs + (if b \<noteq> odd (length xs) then double_digit d else d)"
  by (induction xs arbitrary: b) auto

lemma luhn_fwd_rev: "luhn_fwd ds = luhn_alt False (rev ds)"
  by (induction ds) (simp_all add: luhn_alt_snoc)

lemma luhn_fwd_update:
  "i < length ds \<Longrightarrow>
   \<exists>A g. (g = double_digit \<or> g = id) \<and> (\<forall>d. luhn_fwd (ds[i := d]) = A + g d)"
proof (induction ds arbitrary: i)
  case Nil
  then show ?case by simp
next
  case (Cons x xs)
  show ?case
  proof (cases i)
    case 0
    show ?thesis
    proof (cases "odd (length xs)")
      case True
      then have "\<forall>d. luhn_fwd ((x # xs)[i := d]) = luhn_fwd xs + double_digit d"
        using 0 by simp
      then show ?thesis by blast
    next
      case False
      then have "\<forall>d. luhn_fwd ((x # xs)[i := d]) = luhn_fwd xs + id d"
        using 0 by simp
      then show ?thesis by blast
    qed
  next
    case (Suc j)
    then have "j < length xs" using Cons.prems by simp
    from Cons.IH [OF this] obtain A g where
      g: "g = double_digit \<or> g = id" and A: "\<forall>d. luhn_fwd (xs[j := d]) = A + g d"
      by blast
    have "\<forall>d. luhn_fwd ((x # xs)[i := d]) =
            ((if odd (length xs) then double_digit x else x) + A) + g d"
      using Suc A by simp
    with g show ?thesis by blast
  qed
qed

lemma mod10_le:
  fixes x y A :: nat
  assumes "(A + x) mod 10 = 0" "(A + y) mod 10 = 0" "y < 10" "x \<le> y"
  shows "x = y"
proof -
  have "(A + y) mod 10 = (A + x) mod 10" using assms by simp
  then have "10 dvd (A + y) - (A + x)"
    using assms(4) by (simp add: mod_eq_dvd_iff_nat)
  then have "10 dvd y - x" by simp
  moreover have "y - x < 10" using assms by simp
  ultimately have "y - x = 0" by (meson dvd_imp_le not_less zero_less_iff_neq_zero)
  then show ?thesis using assms by simp
qed

lemma mod10_cancel:
  fixes x y A :: nat
  assumes "(A + x) mod 10 = 0" "(A + y) mod 10 = 0" "x < 10" "y < 10"
  shows "x = y"
proof (cases "x \<le> y")
  case True
  show ?thesis by (rule mod10_le [OF assms(1) assms(2) assms(4) True])
next
  case False
  then have le: "y \<le> x" by simp
  have "y = x" by (rule mod10_le [OF assms(2) assms(1) assms(3) le])
  then show ?thesis by (rule sym)
qed

lemma double_digit_inj:
  assumes "d \<le> 9" "d' \<le> 9" "double_digit d = double_digit d'"
  shows "d = d'"
proof -
  have odd_hi: "odd (double_digit x)" if "9 < x * 2" for x
    using that by (simp add: double_digit_def)
  have even_lo: "even (double_digit x)" if "\<not> 9 < x * 2" for x
    using that by (simp add: double_digit_def)
  show ?thesis
  proof (cases "9 < d * 2")
    case True
    then have "9 < d' * 2" using even_lo [of d'] odd_hi [of d] assms(3) by auto
    with True assms(3) show ?thesis by (simp add: double_digit_def)
  next
    case False
    then have "\<not> 9 < d' * 2" using even_lo [of d] odd_hi [of d'] assms(3) by auto
    with False assms(3) show ?thesis by (simp add: double_digit_def)
  qed
qed

lemma double_digit_less: "d \<le> 9 \<Longrightarrow> double_digit d < 10"
  by (auto simp: double_digit_def)

lemma luhn_fwd_flip:
  assumes i: "i < length ds" and d: "ds ! i \<le> 9" and d': "d' \<le> 9" and ne: "d' \<noteq> ds ! i"
    and ok: "luhn_fwd ds mod 10 = 0"
  shows "luhn_fwd (ds[i := d']) mod 10 \<noteq> 0"
proof -
  from luhn_fwd_update [OF i] obtain A g where
    g: "g = double_digit \<or> g = id" and A: "\<forall>d. luhn_fwd (ds[i := d]) = A + g d"
    by blast
  have old: "luhn_fwd ds = A + g (ds ! i)" using A [rule_format, of "ds ! i"] by simp
  have new: "luhn_fwd (ds[i := d']) = A + g d'" using A by simp
  have lt: "g (ds ! i) < 10" "g d' < 10" using g d d' double_digit_less by auto
  have gne: "g d' \<noteq> g (ds ! i)" using g d d' ne double_digit_inj by auto
  have was: "(A + g (ds ! i)) mod 10 = 0" using ok old by simp
  have "(A + g d') mod 10 \<noteq> 0"
  proof
    assume "(A + g d') mod 10 = 0"
    then have "g d' = g (ds ! i)" using was lt(2) lt(1) by (rule mod10_cancel)
    with gne show False by (rule notE)
  qed
  then show ?thesis using new by simp
qed

lemma atoi_digit: "is_digit c \<Longrightarrow> atoi c = digit_value c"
  by (simp add: atoi_def is_digit_def digit_value_def)

lemma atoi_not_digit: "\<not> is_digit c \<Longrightarrow> atoi c = 0"
  by (auto simp: atoi_def is_digit_def Let_def)

lemma atoi_le: "atoi c \<le> 9"
  unfolding atoi_def Let_def
  by (cases "48 \<le> (of_char c :: nat) \<and> (of_char c :: nat) \<le> 57") auto

lemma atoi_inj:
  assumes "is_digit c" "is_digit c'" "atoi c = atoi c'"
  shows "c = c'"
proof -
  define n where "n = (of_char c :: nat)"
  define n' where "n' = (of_char c' :: nat)"
  have "48 \<le> n \<and> n \<le> 57" "48 \<le> n' \<and> n' \<le> 57"
    using assms(1,2) unfolding is_digit_def n_def n'_def by blast+
  moreover have "n - 48 = n' - 48"
    using assms unfolding atoi_def is_digit_def Let_def n_def n'_def by presburger
  ultimately have "n = n'" by linarith
  then show "c = c'" unfolding n_def n'_def by simp
qed

lemma isValidLuhn_checksum:
  assumes "list_all is_digit s"
  shows "isValidLuhn s = luhn_checksum (map digit_value s)"
proof -
  have "map atoi s = map digit_value s"
    using assms by (simp add: list_all_iff atoi_digit)
  then show ?thesis
    by (simp only: isValidLuhn_fwd luhn_checksum_def luhn_fwd_rev)
qed

lemma isValidLuhn_flip:
  assumes "i < length s" "is_digit (s ! i)" "is_digit c" "c \<noteq> s ! i" "isValidLuhn s"
  shows "\<not> isValidLuhn (s[i := c])"
proof -
  have "luhn_fwd ((map atoi s)[i := atoi c]) mod 10 \<noteq> 0"
  proof (rule luhn_fwd_flip)
    show "i < length (map atoi s)" using assms by simp
    show "map atoi s ! i \<le> 9" using assms atoi_le by simp
    show "atoi c \<le> 9" by (rule atoi_le)
    show "atoi c \<noteq> map atoi s ! i" using assms atoi_inj by auto
    show "luhn_fwd (map atoi s) mod 10 = 0" using assms isValidLuhn_fwd by simp
  qed
  then show ?thesis by (simp add: isValidLuhn_fwd map_update)
qed

lemma atoi_zero_subst: "atoi (zero_subst c) = atoi c"
  by (simp add: zero_subst_def atoi_def is_digit_def Let_def)

lemma isValidLuhn_zero_subst: "isValidLuhn (map zero_subst s) = isValidLuhn s"
  by (simp add: isValidLuhn_fwd atoi_zero_subst comp_def)

lemma zero_runes_ascii:
  "list_all (\<lambda>c. (of_char c :: nat) < 128) s \<Longrightarrow> zero_runes 0 s = map zero_subst s"
  by (induction s) (simp_all add: Let_def)

lemma isValidLuhn_known_good: "isValidLuhn ''79927398713''"
  by (simp add: isValidLuhn_def atoi_def)

text \<open>
  Claim C9. On a string of digits \<open>isValidLuhn\<close> is the Luhn checksum: true for every
  digit string that satisfies it and false for every one that does not. Replacing any
  single digit of a valid digit string by a different digit makes \<open>isValidLuhn\<close> false.
  \<open>InputUserOrder\<close> rejects a number that fails the check with \<open>ErrOrderNumber\<close> before any
  access to storage or to the accrual service: the world is returned as it was, whatever
  the environment, and its trace, which records every query, statement and transaction
  event and the request of the intake to the accrual service, has no new event.
\<close>

theorem luhn_validation:
  "(list_all is_digit s \<longrightarrow> isValidLuhn s = luhn_checksum (map digit_value s)) \<and>
   (list_all is_digit s \<and> isValidLuhn s \<and> i < length s \<and> is_digit c \<and> c \<noteq> s ! i
      \<longrightarrow> \<not> isValidLuhn (s[i := c])) \<and>
   (\<not> isValidLuhn s \<longrightarrow> InputUserOrder e userID s w = (Failed ErrOrderNumber, w))"
proof (intro conjI impI)
  assume "list_all is_digit s"
  then show "isValidLuhn s = luhn_checksum (map digit_value s)"
    by (rule isValidLuhn_checksum)
next
  assume a: "list_all is_digit s \<and> isValidLuhn s \<and> i < length s \<and> is_digit c \<and> c \<noteq> s ! i"
  then have "is_digit (s ! i)" by (simp add: list_all_length)
  with a show "\<not> isValidLuhn (s[i := c])" by (simp add: isValidLuhn_flip)
next
  assume "\<not> isValidLuhn s"
  then show "InputUserOrder e userID s w = (Failed ErrOrderNumber, w)"
    by (simp add: InputUserOrder_def)
qed

theorem luhn_validation_witness:
  "list_all is_digit ''79927398713'' \<and> isValidLuhn ''79927398713'' \<and>
   luhn_checksum [7, 9, 9, 2, 7, 3, 9, 8, 7, 1, 3] \<and>
   \<not> isValidLuhn ''79927398710'' \<and>
   \<not> luhn_checksum [7, 9, 9, 2, 7, 3, 9, 8, 7, 1, 0] \<and>
   InputUserOrder (quiet_env no_content) 1 ''79927398710'' shop = (Failed ErrOrderNumber, shop) \<and>
   trace (snd (InputUserOrder (quiet_env no_content) 1 ''79927398713'' shop)) =
     [Query (SelectOrderOwner ''79927398713''), Http ''79927398713'',
      Query (SelectUserBalance 1)]"
proof -
  let ?G = "''79927398713''" and ?B = "''79927398710''"
  have digits: "list_all is_digit ?G" "list_all is_digit ?B"
    by (simp_all add: is_digit_def)
  have flip: "?G[10 := CHR ''0''] = ?B" by simp
  have vals: "map digit_value ?G = [7, 9, 9, 2, 7, 3, 9, 8, 7, 1, 3]"
    "map digit_value ?B = [7, 9, 9, 2, 7, 3, 9, 8, 7, 1, 0]"
    by (simp_all add: digit_value_def)
  have zero: "10 < length ?G" "is_digit CHR ''0''" "CHR ''0'' \<noteq> ?G ! 10"
    by (simp_all add: is_digit_def)
  note good = luhn_validation [of ?G 10 "CHR ''0''" "quiet_env no_content" 1 shop]
  note bad = luhn_validation [of ?B 10 "CHR ''0''" "quiet_env no_content" 1 shop]
  have g1: "isValidLuhn ?G = luhn_checksum (map digit_value ?G)"
    using good digits(1) by blast
  have g2: "\<not> isValidLuhn (?G[10 := CHR ''0''])"
    using good digits(1) zero isValidLuhn_known_good by blast
  have b1: "isValidLuhn ?B = luhn_checksum (map digit_value ?B)"
    using bad digits(2) by blast
  have b2: "\<not> isValidLuhn ?B" using g2 unfolding flip .
  have b3: "InputUserOrder (quiet_env no_content) 1 ?B shop = (Failed ErrOrderNumber, shop)"
    using bad b2 by blast
  have g3: "trace (snd (InputUserOrder (quiet_env no_content) 1 ?G shop)) =
      [Query (SelectOrderOwner ?G), Http ?G, Query (SelectUserBalance 1)]"
    using isValidLuhn_known_good
    by (simp add: InputUserOrder_def GetUUIDFromOrders_def GetAccrualAPI_def sent_def
        GetUserBalance_def selectBalance_def quiet_env_def no_content_def shop_def emit_def)
  show ?thesis
    using digits(1) isValidLuhn_known_good g1 b1 b2 b3 g3 unfolding vals by blast
qed

subsection \<open>Traces and tables\<close>

lemma trace_emit [simp]: "trace (emit ev w) = trace w @ [ev]"
  by (simp add: emit_def)

lemma tables_emit [simp]: "tables (emit ev w) = tables w"
  by (simp add: emit_def)

lemma exec_trace: "trace (snd (exec e s tx)) = trace tx @ [Exec s]"
  by (simp add: exec_def Let_def split: option.splits sum.splits)

lemma exec_prefix: "prefix (trace tx) (trace (snd (exec e s tx)))"
  by (simp add: exec_trace)

lemma withTransaction_prefix:
  assumes "\<And>tx. prefix (trace tx) (trace (snd (f tx)))"
  shows "prefix (trace w) (trace (snd (withTransaction e f w)))"
proof -
  obtain r tx where f: "f (emit Begin w) = (r, tx)" by (cases "f (emit Begin w)")
  have "prefix (trace (emit Begin w)) (trace tx)" using assms [of "emit Begin w"] f by simp
  then have "prefix (trace w) (trace tx)" by (auto simp: prefix_def)
  then have "prefix (trace w) (trace tx @ [ev])" for ev
    by (simp add: prefix_prefix)
  with f \<open>prefix (trace w) (trace tx)\<close> show ?thesis
    by (cases r) (simp_all add: withTransaction_def split: option.splits)
qed

lemma inputTx_prefix:
  "prefix (trace tx) (trace (snd (inputTx e n s u a b tx)))"
proof (cases a)
  case None
  then show ?thesis by (simp add: inputTx_def)
next
  case (Some x)
  obtain r1 tx1 where e1: "exec e (InsertOrder n u x s) tx = (r1, tx1)"
    by (cases "exec e (InsertOrder n u x s) tx")
  obtain r2 tx2 where e2: "exec e (UpdateBalance b u) tx1 = (r2, tx2)"
    by (cases "exec e (UpdateBalance b u) tx1")
  have t1: "trace tx1 = trace tx @ [Exec (InsertOrder n u x s)]"
    using exec_trace [of e "InsertOrder n u x s" tx] e1 by simp
  have t2: "trace tx2 = trace tx1 @ [Exec (UpdateBalance b u)]"
    using exec_trace [of e "UpdateBalance b u" tx1] e2 by simp
  show ?thesis
    using Some e1 e2 t1 t2
    by (cases r1; cases r2)
      (simp_all add: inputTx_def StoreUserOrder_def UpdateUserBalance_def)
qed

lemma withdrawalTx_prefix:
  "prefix (trace tx) (trace (snd (withdrawalTx e u n a b tx)))"
proof -
  obtain r1 tx1 where e1: "exec e (InsertWithdrawal u n a) tx = (r1, tx1)"
    by (cases "exec e (InsertWithdrawal u n a) tx")
  obtain r2 tx2 where e2: "exec e (UpdateBalance b u) tx1 = (r2, tx2)"
    by (cases "exec e (UpdateBalance b u) tx1")
  have t1: "trace tx1 = trace tx @ [Exec (InsertWithdrawal u n a)]"
    using exec_trace [of e "InsertWithdrawal u n a" tx] e1 by simp
  have t2: "trace tx2 = trace tx1 @ [Exec (UpdateBalance b u)]"
    using exec_trace [of e "UpdateBalance b u" tx1] e2 by simp
  show ?thesis
    using e1 e2 t1 t2
    by (cases r1; cases r2)
      (simp_all add: withdrawalTx_def StoreUserWithdrawal_def UpdateUserBalance_def)
qed

lemma InputUserOrder_reaches_lookup:
  assumes "isValidLuhn s"
  shows "prefix (trace w @ [Query (SelectOrderOwner s)]) (trace (snd (InputUserOrder e u s w)))"
proof -
  let ?order = "\<lparr>O_UserID = 0, Number = s, O_Status = [], O_Accrual = None\<rparr>"
  let ?w0 = "emit (Query (SelectOrderOwner s)) w"
  let ?w1 = "sent e ?order ?w0"
  let ?w2 = "emit (Query (SelectUserBalance u)) ?w1"
  have w0: "trace ?w0 = trace w @ [Query (SelectOrderOwner s)]" by simp
  have p1: "prefix (trace ?w0) (trace ?w1)"
    by (simp add: sent_def split: reply.splits)
  have p2: "prefix (trace ?w0) (trace ?w2)"
    using p1 by (auto simp: prefix_def)
  have tx: "prefix (trace ?w0) (trace (snd (withTransaction e (inputTx e s st u a b) ?w2)))"
    for st a b
  proof -
    have "prefix (trace ?w2) (trace (snd (withTransaction e (inputTx e s st u a b) ?w2)))"
      by (rule withTransaction_prefix) (rule inputTx_prefix)
    with p2 show ?thesis by (rule prefix_order.trans)
  qed
  have r: "prefix (trace ?w0) (trace (snd (InputUserOrder e u s w)))"
    using assms tx p1 p2
    by (simp add: InputUserOrder_def GetUUIDFromOrders_def GetUserBalance_def Let_def
        del: trace_emit split: option.splits row.splits sum.splits)
  show ?thesis using r unfolding w0 .
qed

lemma Withdrawal_reaches_balance:
  assumes "isValidLuhn s"
  shows "prefix (trace w @ [Query (SelectUserBalance u)])
           (trace (snd (WithdrawalBonusForNewOrder e u s a w)))"
proof -
  let ?w1 = "emit (Query (SelectUserBalance u)) w"
  have w1: "trace ?w1 = trace w @ [Query (SelectUserBalance u)]" by simp
  have tx: "prefix (trace ?w1) (trace (snd (withTransaction e (withdrawalTx e u s a b) ?w1)))"
    for b
    by (rule withTransaction_prefix) (rule withdrawalTx_prefix)
  show ?thesis
    unfolding w1 [symmetric]
    using assms tx
    by (simp add: WithdrawalBonusForNewOrder_def GetUserBalance_def Let_def
        split: row.splits)
qed

text \<open>
  Claim C10. \<open>isValidLuhn\<close> accepts the empty string, and reads every byte that is not an
  ASCII digit as the digit 0: a string passes exactly when the string of the same length
  with 0 in place of each of its other bytes passes, that is exactly when the digits of
  that string satisfy the Luhn checksum. For a string of ASCII characters bytes are
  characters, and this is the substitution on characters. A string that passes, digits or
  not, gets past the check of \<open>InputUserOrder\<close>, whose next step is the lookup of the
  order's owner, and past the check of \<open>WithdrawalBonusForNewOrder\<close>, whose next step is
  the reading of the balance.
\<close>

theorem luhn_non_digits:
  "isValidLuhn [] \<and>
   (\<not> is_digit c \<longrightarrow> atoi c = 0) \<and>
   isValidLuhn s = isValidLuhn (map zero_subst s) \<and>
   isValidLuhn s = luhn_checksum (map digit_value (map zero_subst s)) \<and>
   (list_all (\<lambda>c. (of_char c :: nat) < 128) s \<longrightarrow> rune_zero_subst s = map zero_subst s) \<and>
   (isValidLuhn s \<longrightarrow>
      prefix (trace w @ [Query (SelectOrderOwner s)])
        (trace (snd (InputUserOrder e userID s w)))) \<and>
   (isValidLuhn s \<longrightarrow>
      prefix (trace w @ [Query (SelectUserBalance userID)])
        (trace (snd (WithdrawalBonusForNewOrder e userID s amount w))))"
proof (intro conjI impI)
  show "isValidLuhn []" by (simp add: isValidLuhn_def)
  show "isValidLuhn s = isValidLuhn (map zero_subst s)"
    by (simp only: isValidLuhn_zero_subst)
  have "is_digit (zero_subst x)" for x
    by (simp add: zero_subst_def is_digit_def)
  then have "list_all is_digit (map zero_subst s)"
    by (induction s) simp_all
  then have "isValidLuhn (map zero_subst s) = luhn_checksum (map digit_value (map zero_subst s))"
    by (rule isValidLuhn_checksum)
  then show "isValidLuhn s = luhn_checksum (map digit_value (map zero_subst s))"
    by (simp add: isValidLuhn_zero_subst)
next
  assume "\<not> is_digit c"
  then show "atoi c = 0" by (rule atoi_not_digit)
next
  assume "list_all (\<lambda>c. (of_char c :: nat) < 128) s"
  then show "rune_zero_subst s = map zero_subst s"
    unfolding rune_zero_subst_def by (rule zero_runes_ascii)
next
  assume "isValidLuhn s"
  then show "prefix (trace w @ [Query (SelectOrderOwner s)])
               (trace (snd (InputUserOrder e userID s w)))"
    by (rule InputUserOrder_reaches_lookup)
next
  assume "isValidLuhn s"
  then show "prefix (trace w @ [Query (SelectUserBalance userID)])
               (trace (snd (WithdrawalBonusForNewOrder e userID s amount w)))"
    by (rule Withdrawal_reaches_balance)
qed

theorem luhn_non_digits_witness:
  "\<not> is_digit CHR ''a'' \<and> atoi CHR ''a'' = 0 \<and>
   map zero_subst ''abc'' = ''000'' \<and> isValidLuhn ''000'' \<and> isValidLuhn ''abc'' \<and>
   luhn_checksum [0, 0, 0] \<and> rune_zero_subst ''abc'' = ''000'' \<and>
   prefix [Query (SelectOrderOwner ''abc'')]
     (trace (snd (InputUserOrder (quiet_env no_content) 1 ''abc'' shop))) \<and>
   prefix [Query (SelectUserBalance 1)]
     (trace (snd (WithdrawalBonusForNewOrder (quiet_env no_content) 1 ''abc'' 500 shop)))"
proof -
  note inst = luhn_non_digits [of "CHR ''a''" "''abc''" shop "quiet_env no_content" 1 500]
  have a: "\<not> is_digit CHR ''a''" by (simp add: is_digit_def)
  have z: "map zero_subst ''abc'' = ''000''" by (simp add: zero_subst_def is_digit_def)
  have v: "isValidLuhn ''000''" by (simp add: isValidLuhn_def atoi_def)
  have t: "trace shop = []" by (simp add: shop_def)
  have d: "map digit_value ''000'' = [0, 0, 0]" by (simp add: digit_value_def)
  have asc: "list_all (\<lambda>c. (of_char c :: nat) < 128) ''abc''" by simp
  have abc: "isValidLuhn ''abc''" using inst v unfolding z by blast
  have ck: "luhn_checksum [0, 0, 0]" using inst abc unfolding z d by blast
  have rz: "rune_zero_subst ''abc'' = ''000''" using inst asc unfolding z by blast
  show ?thesis using inst a z v abc ck rz unfolding t by simp
qed

text \<open>
  Claim C10, on characters. In \<^verbatim>\<open>"1\u00e99"\<close> the character that is not a digit takes two
  bytes: the string with 0 in its place is \<^verbatim>\<open>"109"\<close>, which passes, and \<open>isValidLuhn\<close>
  rejects \<^verbatim>\<open>"1\u00e99"\<close>, which counts four bytes and doubles the digit 1; the order intake
  answers \<open>ErrOrderNumber\<close>. Conversely \<^verbatim>\<open>"1\u00e98"\<close> passes and \<^verbatim>\<open>"108"\<close> does not.
\<close>

theorem luhn_two_byte_character:
  "rune_zero_subst accented_9 = ''109'' \<and> isValidLuhn ''109'' \<and> \<not> isValidLuhn accented_9 \<and>
   InputUserOrder (quiet_env no_content) 1 accented_9 shop = (Failed ErrOrderNumber, shop) \<and>
   rune_zero_subst accented_8 = ''108'' \<and> \<not> isValidLuhn ''108'' \<and> isValidLuhn accented_8"
  by (simp add: rune_zero_subst_def accented_9_def accented_8_def zero_subst_def is_digit_def
      second_def cont_def InputUserOrder_def isValidLuhn_def atoi_def)

subsection \<open>The order intake and the sweeps on example data\<close>

text \<open>
  Claim C5. An order number that passes the check and is not stored yet, for which the
  accrual service answers 204 (or 200 with status REGISTERED and no accrual): the data
  carry a nil \<open>Accrual\<close>, and \<open>InputUserOrder\<close> panics after reading the balance, before any
  transaction is begun; nothing is stored. The trace holds the lookup of the order's owner,
  the request to the accrual service and the reading of the balance.
\<close>

theorem input_nil_accrual_panics:
  "InputUserOrder (quiet_env no_content) 1 ''34'' shop =
     (Panics, shop\<lparr>trace := [Query (SelectOrderOwner ''34''), Http ''34'',
                               Query (SelectUserBalance 1)]\<rparr>) \<and>
   InputUserOrder (quiet_env registered) 1 ''34'' shop =
     (Panics, shop\<lparr>trace := [Query (SelectOrderOwner ''34''), Http ''34'',
                               Query (SelectUserBalance 1)]\<rparr>)"
  by (simp add: InputUserOrder_def isValidLuhn_def atoi_def GetUUIDFromOrders_def
      GetAccrualAPI_def sent_def GetUserBalance_def selectBalance_def quiet_env_def
      no_content_def registered_def shop_def emit_def)

text \<open>
  Claim C6. The two orders of \<open>shop\<close> are stored with status NEW, and the accrual service
  answers REGISTERED for both. Either sweep stores REGISTERED for them. The order intake,
  given REGISTERED for a new order, stores NEW.
\<close>

theorem sweeps_store_registered:
  "map status (orders_table (tables (snd (RunUpdateOrdersStatusJob (quiet_env registered) shop))))
     = [''REGISTERED'', ''REGISTERED''] \<and>
   map status (orders_table (tables (snd (CheckUpdateUserOrders (quiet_env registered) 1 shop))))
     = [''REGISTERED'', ''REGISTERED''] \<and>
   map status (orders_table (tables (snd (InputUserOrder (quiet_env registered_zero) 1 ''34'' shop))))
     = [''NEW'', ''NEW'', ''NEW'']"
  by (simp add: RunUpdateOrdersStatusJob_def CheckUpdateUserOrders_def InputUserOrder_def
      GetProcessingOrders_def GetUserProcessingOrders_def GetUUIDFromOrders_def
      startWorkers_def List.map_filter_def worker_def GetAccrualAPI_def sent_def
      GetUserBalance_def selectBalance_def withTransaction_def jobTx_def userTx_def inputTx_def
      StoreUserOrder_def UpdateUserBalance_def exec_def emit_def isValidLuhn_def atoi_def
      quiet_env_def registered_def registered_zero_def shop_def)

text \<open>
  Claim C1. The user of \<open>shop\<close> has a balance of 100 and two waiting orders, which the
  accrual service has processed with accruals of 10 and 20. The system-wide sweep
  returns nil and commits a balance of 120: the second result overwrites the entry of
  the first, both computed from the stored balance. The sweep of that one user commits
  130.
\<close>

theorem job_overwrites_accrual:
  "fst (RunUpdateOrdersStatusJob (quiet_env processed) shop) = Ok \<and>
   selectBalance (quiet_env processed)
     (tables (snd (RunUpdateOrdersStatusJob (quiet_env processed) shop))) 1 = Found 120 \<and>
   fst (CheckUpdateUserOrders (quiet_env processed) 1 shop) = Ok \<and>
   selectBalance (quiet_env processed)
     (tables (snd (CheckUpdateUserOrders (quiet_env processed) 1 shop))) 1 = Found 130"
  by (simp add: RunUpdateOrdersStatusJob_def CheckUpdateUserOrders_def
      GetProcessingOrders_def GetUserProcessingOrders_def
      startWorkers_def List.map_filter_def worker_def GetAccrualAPI_def
      GetUserBalance_def selectBalance_def withTransaction_def jobTx_def userTx_def
      UpdateUserBalance_def exec_def emit_def
      quiet_env_def processed_def shop_def)

subsection \<open>Statements and transactions\<close>

lemma exec_ok:
  assumes "exec e s tx = (None, tx')"
  shows "apply_stmt s (tables tx) = Inr (tables tx')" and "trace tx' = trace tx @ [Exec s]"
  using assms by (auto simp: exec_def Let_def split: option.splits sum.splits)

lemma UpdateOrders_exec_all: "UpdateOrders e rs tx = exec_all e (map order_stmt rs) tx"
  by (induction rs arbitrary: tx) (simp_all add: order_stmt_def split: prod.splits option.splits)

lemma UsersBalanceUpdate_exec_all:
  "UsersBalanceUpdate e bs tx = exec_all e (map balance_stmt bs) tx"
  by (induction e bs tx rule: UsersBalanceUpdate.induct)
    (simp_all add: balance_stmt_def split: prod.splits option.splits)

lemma exec_all_append:
  "exec_all e (ss @ ts) tx =
     (case exec_all e ss tx of (Some m, tx') \<Rightarrow> (Some m, tx') | (None, tx') \<Rightarrow> exec_all e ts tx')"
  by (induction ss arbitrary: tx) (simp_all split: prod.splits option.splits)

lemma exec_all_ok:
  "exec_all e ss tx = (None, tx') \<Longrightarrow>
   tables tx' = run_stmts ss (tables tx) \<and> trace tx' = trace tx @ map Exec ss"
proof (induction ss arbitrary: tx)
  case Nil
  then show ?case by simp
next
  case (Cons s ss)
  obtain r tx1 where ex: "exec e s tx = (r, tx1)" by (cases "exec e s tx")
  show ?case
  proof (cases r)
    case None
    with ex Cons.prems have rest: "exec_all e ss tx1 = (None, tx')" by simp
    from exec_ok [OF ex [unfolded None]] Cons.IH [OF rest]
    show ?thesis by simp
  next
    case (Some m)
    with ex Cons.prems show ?thesis by simp
  qed
qed

text \<open>The bodies of the transactions of the two sweeps and of the withdrawal run a list of
  statements and turn a failure into their error.\<close>

lemma jobTx_exec_all:
  "jobTx e os bs tx =
     (case exec_all e (map balance_stmt bs @ map order_stmt os) tx of
        (Some m, tx') \<Rightarrow> (Failed ErrAccessingDB, tx')
      | (None, tx') \<Rightarrow> (Ok, tx'))"
  by (cases os)
    (simp_all add: jobTx_def UsersBalanceUpdate_exec_all UpdateOrders_exec_all exec_all_append
      split: prod.splits option.splits)

lemma userTx_exec_all:
  "userTx e u b os tx =
     (case exec_all e (UpdateBalance b u # map order_stmt os) tx of
        (Some m, tx') \<Rightarrow> (Failed ErrAccessingDB, tx')
      | (None, tx') \<Rightarrow> (Ok, tx'))"
  by (cases os)
    (simp_all add: userTx_def UpdateUserBalance_def UpdateOrders_exec_all
      split: prod.splits option.splits)


text \<open>A transaction around such a body: the tables are as before, or every statement was
  accepted and the commit succeeded.\<close>

lemma withTransaction_stmts:
  assumes body: "\<And>tx. f tx = (case exec_all e ss tx of
                               (Some m, tx') \<Rightarrow> (Failed (err m), tx')
                             | (None, tx') \<Rightarrow> (Ok, tx'))"
  shows "tables (snd (withTransaction e f w)) = tables w \<or>
         (begin_err e = None \<and> commit_err e = None \<and>
          withTransaction e f w =
            (Ok, \<lparr>tables = run_stmts ss (tables w),
                  trace = trace w @ Begin # map Exec ss @ [Commit]\<rparr>))"
proof (cases "begin_err e")
  case (Some m)
  then show ?thesis by (simp add: withTransaction_def)
next
  case None
  obtain r tx' where ex: "exec_all e ss (emit Begin w) = (r, tx')"
    by (cases "exec_all e ss (emit Begin w)")
  show ?thesis
  proof (cases r)
    case (Some m)
    with ex None show ?thesis by (simp add: withTransaction_def body)
  next
    case r: None
    from exec_all_ok [OF ex [unfolded r]]
    have tx': "tables tx' = run_stmts ss (tables w)"
      "trace tx' = trace w @ Begin # map Exec ss" by simp_all
    show ?thesis
    proof (cases "commit_err e")
      case (Some m)
      with ex r None show ?thesis by (simp add: withTransaction_def body)
    next
      case c: None
      have "emit Commit tx' =
              \<lparr>tables = run_stmts ss (tables w), trace = trace w @ Begin # map Exec ss @ [Commit]\<rparr>"
        using tx' by (simp add: emit_def)
      with ex r None c show ?thesis by (simp add: withTransaction_def body)
    qed
  qed
qed

subsection \<open>Reading the balance after an update\<close>






subsection \<open>A sweep with nothing to do\<close>






subsection \<open>The withdrawal\<close>





subsection \<open>The worker pool and the aggregating loops\<close>








lemma jobLoop_world:
  "\<exists>qs. snd (jobLoop e ms os bs w) = \<lparr>tables = tables w, trace = trace w @ map Query qs\<rparr>"
proof (induction ms arbitrary: os bs w)
  case Nil
  have "snd (jobLoop e [] os bs w) = \<lparr>tables = tables w, trace = trace w @ map Query []\<rparr>"
    by simp
  then show ?case by blast
next
  case (Cons m ms)
  show ?case
  proof (cases m)
    case (Error err)
    have "snd (jobLoop e (m # ms) os bs w) = \<lparr>tables = tables w, trace = trace w @ map Query []\<rparr>"
      using Error by simp
    then show ?thesis by blast
  next
    case (Result r)
    show ?thesis
    proof (cases "Accrual r")
      case None
      with Result Cons.IH [of "os @ [r]" bs w] show ?thesis by simp
    next
      case (Some a)
      let ?q = "SelectUserBalance (UserID r)"
      let ?w' = "emit (Query ?q) w"
      show ?thesis
      proof (cases "selectBalance e (tables w) (UserID r)")
        case (Found b)
        from Cons.IH [of "os @ [r]" "AList.update (UserID r) (b + a) bs" ?w']
        obtain qs where
          "snd (jobLoop e ms (os @ [r]) (AList.update (UserID r) (b + a) bs) ?w')
             = \<lparr>tables = tables ?w', trace = trace ?w' @ map Query qs\<rparr>" by blast
        then have "snd (jobLoop e (m # ms) os bs w)
             = \<lparr>tables = tables w, trace = trace w @ map Query (?q # qs)\<rparr>"
          using Result Some Found by (simp add: GetUserBalance_def)
        then show ?thesis by blast
      next
        case NoRows
        have "snd (jobLoop e (m # ms) os bs w)
             = \<lparr>tables = tables w, trace = trace w @ map Query [?q]\<rparr>"
          using Result Some NoRows by (simp add: GetUserBalance_def emit_def)
        then show ?thesis by blast
      next
        case (QueryFailed x)
        have "snd (jobLoop e (m # ms) os bs w)
             = \<lparr>tables = tables w, trace = trace w @ map Query [?q]\<rparr>"
          using Result Some QueryFailed by (simp add: GetUserBalance_def emit_def)
        then show ?thesis by blast
      qed
    qed
  qed
qed





subsection \<open>A failed query aborts the sweep\<close>






subsection \<open>Transactions are atomic\<close>

lemma map_filter_append:
  "List.map_filter f (xs @ ys) = List.map_filter f xs @ List.map_filter f ys"
  by (simp add: List.map_filter_def)

lemma map_filter_Query: "List.map_filter stmt_of (map Query qs) = []"
  by (induction qs) (simp_all add: List.map_filter_simps stmt_of_def)

lemma map_filter_Exec: "List.map_filter stmt_of (map Exec ss) = ss"
  by (induction ss) (simp_all add: List.map_filter_simps stmt_of_def)

lemma executed_commit:
  assumes "trace w' = trace w @ map Query qs @ Begin # map Exec ss @ [Commit]"
  shows "executed w w' = ss"
  by (simp add: executed_def assms map_filter_append map_filter_Query map_filter_Exec
      List.map_filter_simps stmt_of_def)

lemma sweep_commit_all_or_nothing:
  assumes body: "\<And>tx. f tx = (case exec_all e ss tx of
                               (Some m, tx') \<Rightarrow> (Failed (err m), tx')
                             | (None, tx') \<Rightarrow> (Ok, tx'))"
    and w2: "tables w2 = tables w" "trace w2 = trace w @ map Query qs"
  shows "all_or_nothing w (snd (withTransaction e f w2))"
proof -
  from withTransaction_stmts [where f = f and e = e and ss = ss and err = err and w = w2, OF body]
  consider "tables (snd (withTransaction e f w2)) = tables w2"
    | "withTransaction e f w2 =
         (Ok, \<lparr>tables = run_stmts ss (tables w2),
               trace = trace w2 @ Begin # map Exec ss @ [Commit]\<rparr>)"
    by blast
  then show ?thesis
  proof cases
    case 1
    then show ?thesis by (simp add: all_or_nothing_def w2)
  next
    case 2
    let ?w' = "snd (withTransaction e f w2)"
    have t: "trace ?w' = trace w @ map Query qs @ Begin # map Exec ss @ [Commit]"
      by (simp add: 2 w2)
    have "executed w ?w' = ss" using t by (rule executed_commit)
    moreover have "last (trace ?w') = Commit" by (simp add: t)
    moreover have "tables ?w' = run_stmts ss (tables w)" by (simp add: 2 w2)
    ultimately show ?thesis by (simp add: all_or_nothing_def)
  qed
qed

lemma job_all_or_nothing: "all_or_nothing w (snd (RunUpdateOrdersStatusJob e w))"
proof -
  let ?w1 = "emit (Query SelectProcessingOrders) w"
  obtain res where g: "GetProcessingOrders e w = (res, ?w1)"
    by (simp add: GetProcessingOrders_def)
  show ?thesis
  proof (cases res)
    case (Inl x)
    then show ?thesis by (simp add: RunUpdateOrdersStatusJob_def g all_or_nothing_def)
  next
    case (Inr pending)
    obtain lr w2 where l: "jobLoop e (startWorkers e pending) [] [] ?w1 = (lr, w2)"
      by (cases "jobLoop e (startWorkers e pending) [] [] ?w1")
    from jobLoop_world [of e "startWorkers e pending" "[]" "[]" ?w1] l
    obtain qs where w2: "w2 = \<lparr>tables = tables ?w1, trace = trace ?w1 @ map Query qs\<rparr>"
      by auto
    have w2': "tables w2 = tables w" "trace w2 = trace w @ map Query (SelectProcessingOrders # qs)"
      by (simp_all add: w2)
    show ?thesis
    proof (cases lr)
      case (Inl x)
      with Inr show ?thesis
        by (simp add: RunUpdateOrdersStatusJob_def g l all_or_nothing_def w2')
    next
      case (Inr p)
      obtain os bs where p: "p = (os, bs)" by (cases p)
      have run: "RunUpdateOrdersStatusJob e w = withTransaction e (jobTx e os bs) w2"
        using \<open>res = Inr pending\<close> Inr p by (simp add: RunUpdateOrdersStatusJob_def g l)
      show ?thesis
        unfolding run
        by (rule sweep_commit_all_or_nothing [where err = "\<lambda>m. ErrAccessingDB",
              OF jobTx_exec_all w2'])
    qed
  qed
qed

lemma user_sweep_all_or_nothing: "all_or_nothing w (snd (CheckUpdateUserOrders e u w))"
proof -
  let ?w1 = "emit (Query (SelectUserProcessingOrders u)) w"
  let ?w2 = "emit (Query (SelectUserBalance u)) ?w1"
  obtain res where g: "GetUserProcessingOrders e u w = (res, ?w1)"
    by (simp add: GetUserProcessingOrders_def)
  have w2: "tables ?w2 = tables w"
    "trace ?w2 = trace w @ map Query [SelectUserProcessingOrders u, SelectUserBalance u]"
    by simp_all
  show ?thesis
  proof (cases res)
    case (Inl x)
    then show ?thesis by (simp add: CheckUpdateUserOrders_def g all_or_nothing_def)
  next
    case (Inr pending)
    show ?thesis
    proof (cases "userLoop (startWorkers e pending) [] 0")
      case (Inl x)
      with Inr show ?thesis by (simp add: CheckUpdateUserOrders_def g all_or_nothing_def)
    next
      case lr: (Inr p)
      obtain os a where p: "p = (os, a)" by (cases p)
      show ?thesis
      proof (cases "selectBalance e (tables w) u")
        case (Found b)
        have run: "CheckUpdateUserOrders e u w = withTransaction e (userTx e u (b + a) os) ?w2"
          using Inr lr p Found by (simp add: CheckUpdateUserOrders_def g GetUserBalance_def)
        show ?thesis
          unfolding run
          by (rule sweep_commit_all_or_nothing [where err = "\<lambda>m. ErrAccessingDB",
                OF userTx_exec_all w2])
      next
        case NoRows
        with Inr lr p show ?thesis
          by (simp add: CheckUpdateUserOrders_def g GetUserBalance_def all_or_nothing_def)
      next
        case (QueryFailed x)
        with Inr lr p show ?thesis
          by (simp add: CheckUpdateUserOrders_def g GetUserBalance_def all_or_nothing_def)
      qed
    qed
  qed
qed

text \<open>
  Claim C3. \<open>withTransaction\<close> rolls back when the body returns an error and when it
  panics, returning the error or passing the panic on, and the tables are then as they
  were before. The tables change only when the transaction began, the body returned nil
  and the commit was done. For either sweep the tables afterwards are the tables before,
  or the sweep ended in a commit and they are what all the statements it executed, the
  updates of balances and of orders together, make of the tables before.
\<close>

theorem transaction_atomicity:
  "(begin_err e = None \<and> txFunc (emit Begin w) = (Failed err, tx) \<longrightarrow>
      withTransaction e txFunc w
        = (Failed err, \<lparr>tables = tables w, trace = trace tx @ [Rollback]\<rparr>)) \<and>
   (begin_err e = None \<and> txFunc (emit Begin w) = (Panics, tx) \<longrightarrow>
      withTransaction e txFunc w
        = (Panics, \<lparr>tables = tables w, trace = trace tx @ [Rollback]\<rparr>)) \<and>
   (tables (snd (withTransaction e txFunc w)) \<noteq> tables w \<longrightarrow>
      begin_err e = None \<and> commit_err e = None \<and> fst (txFunc (emit Begin w)) = Ok \<and>
      snd (withTransaction e txFunc w) = emit Commit (snd (txFunc (emit Begin w)))) \<and>
   all_or_nothing w (snd (RunUpdateOrdersStatusJob e w)) \<and>
   all_or_nothing w (snd (CheckUpdateUserOrders e u w))"
proof (intro conjI impI)
  assume "begin_err e = None \<and> txFunc (emit Begin w) = (Failed err, tx)"
  then show "withTransaction e txFunc w
               = (Failed err, \<lparr>tables = tables w, trace = trace tx @ [Rollback]\<rparr>)"
    by (simp add: withTransaction_def)
next
  assume "begin_err e = None \<and> txFunc (emit Begin w) = (Panics, tx)"
  then show "withTransaction e txFunc w
               = (Panics, \<lparr>tables = tables w, trace = trace tx @ [Rollback]\<rparr>)"
    by (simp add: withTransaction_def)
next
  assume changed: "tables (snd (withTransaction e txFunc w)) \<noteq> tables w"
  obtain r tx' where f: "txFunc (emit Begin w) = (r, tx')" by (cases "txFunc (emit Begin w)")
  have b: "begin_err e = None"
    using changed by (cases "begin_err e") (simp_all add: withTransaction_def)
  have r: "r = Ok"
    using changed b f by (cases r) (simp_all add: withTransaction_def)
  have c: "commit_err e = None"
    using changed b f r by (cases "commit_err e") (simp_all add: withTransaction_def)
  show "begin_err e = None" by (rule b)
  show "commit_err e = None" by (rule c)
  show "fst (txFunc (emit Begin w)) = Ok" using f r by simp
  show "snd (withTransaction e txFunc w) = emit Commit (snd (txFunc (emit Begin w)))"
    using b c f r by (simp add: withTransaction_def)
next
  show "all_or_nothing w (snd (RunUpdateOrdersStatusJob e w))" by (rule job_all_or_nothing)
  show "all_or_nothing w (snd (CheckUpdateUserOrders e u w))"
    by (rule user_sweep_all_or_nothing)
qed

theorem transaction_atomicity_witness:
  "withTransaction broken (jobTx broken shop_results [(1, 120)]) shop
     = (Failed ErrAccessingDB,
        \<lparr>tables = tables shop,
         trace = [Begin, Exec (UpdateBalance 120 1),
                  Exec (UpdateOrder ''PROCESSED'' (Some 10) ''18''),
                  Exec (UpdateOrder ''PROCESSED'' (Some 20) ''26''), Rollback]\<rparr>) \<and>
   withTransaction (quiet_env no_content)
       (inputTx (quiet_env no_content) ''34'' ''NEW'' 1 None 100) shop
     = (Panics, \<lparr>tables = tables shop, trace = [Begin, Rollback]\<rparr>) \<and>
   tables (snd (withTransaction (quiet_env processed)
                  (jobTx (quiet_env processed) shop_results [(1, 120)]) shop)) \<noteq> tables shop \<and>
   fst (jobTx (quiet_env processed) shop_results [(1, 120)] (emit Begin shop)) = Ok \<and>
   all_or_nothing shop (snd (RunUpdateOrdersStatusJob broken shop)) \<and>
   all_or_nothing shop (snd (CheckUpdateUserOrders (quiet_env processed) 1 shop))"
proof -
  let ?fa = "jobTx broken shop_results [(1, 120)]"
  let ?ta = "snd (?fa (emit Begin shop))"
  let ?fb = "inputTx (quiet_env no_content) ''34'' ''NEW'' 1 None 100"
  let ?fc = "jobTx (quiet_env processed) shop_results [(1, 120)]"
  have begins: "begin_err broken = None" "begin_err (quiet_env no_content) = None"
    by (simp_all add: broken_def quiet_env_def)
  have fa: "fst (?fa (emit Begin shop)) = Failed ErrAccessingDB"
    by (simp add: jobTx_def exec_def emit_def broken_def quiet_env_def shop_results_def shop_def)
  have ta: "trace ?ta = [Begin, Exec (UpdateBalance 120 1),
                         Exec (UpdateOrder ''PROCESSED'' (Some 10) ''18''),
                         Exec (UpdateOrder ''PROCESSED'' (Some 20) ''26'')]"
    by (simp add: jobTx_def exec_def emit_def broken_def quiet_env_def shop_results_def shop_def)
  have ha: "?fa (emit Begin shop) = (Failed ErrAccessingDB, ?ta)"
    using fa by (simp add: prod_eq_iff)
  have hb: "?fb (emit Begin shop) = (Panics, emit Begin shop)"
    by (simp add: inputTx_def)
  have tb: "trace (emit Begin shop) = [Begin]" by (simp add: shop_def)
  have hc: "tables (snd (withTransaction (quiet_env processed) ?fc shop)) \<noteq> tables shop"
    by (simp add: withTransaction_def jobTx_def exec_def emit_def quiet_env_def
        shop_results_def shop_def)
  note a = transaction_atomicity [of broken ?fa shop ErrAccessingDB ?ta 1]
  note b = transaction_atomicity [of "quiet_env no_content" ?fb shop ErrAccessingDB
      "emit Begin shop" 1]
  note c = transaction_atomicity [of "quiet_env processed" ?fc shop ErrAccessingDB ?ta 1]
  have ra: "withTransaction broken ?fa shop
              = (Failed ErrAccessingDB, \<lparr>tables = tables shop, trace = trace ?ta @ [Rollback]\<rparr>)"
    using a begins(1) ha by blast
  have rb: "withTransaction (quiet_env no_content) ?fb shop
              = (Panics, \<lparr>tables = tables shop, trace = trace (emit Begin shop) @ [Rollback]\<rparr>)"
    using b begins(2) hb by blast
  have rc: "fst (?fc (emit Begin shop)) = Ok" using c hc by blast
  have rd: "all_or_nothing shop (snd (RunUpdateOrdersStatusJob broken shop))"
    using a by blast
  have re: "all_or_nothing shop (snd (CheckUpdateUserOrders (quiet_env processed) 1 shop))"
    using c by blast
  show ?thesis
    using ra [unfolded ta] rb [unfolded tb] hc rc rd re by simp
qed

subsection \<open>Orders answered with 429 or 204\<close>

text \<open>Such an answer is no error and carries no accrual: the worker sends nothing for an
  order stored as NEW and data with status NEW otherwise, and the errors and the balances
  that either loop ends with are those of the batch without the orders answered so.\<close>

lemma limited_GetAccrualAPI:
  "limited e (Number task) \<Longrightarrow> GetAccrualAPI e task = Inr (new_result task)"
  by (auto simp: limited_def GetAccrualAPI_def new_result_def split: reply.splits)

lemma limited_worker:
  "limited e (Number task) \<Longrightarrow>
   worker e task = (if O_Status task = ''NEW'' then None else Some (Result (new_result task)))"
  by (simp add: worker_def limited_GetAccrualAPI new_result_def)

lemma jobLoop_skips_limited:
  "map_sum id snd (fst (jobLoop e (List.map_filter (worker e) ts) os bs w))
     = map_sum id snd
         (fst (jobLoop e (List.map_filter (worker e) (filter (\<lambda>t. \<not> limited e (Number t)) ts))
                 os' bs w)) \<and>
   snd (jobLoop e (List.map_filter (worker e) ts) os bs w)
     = snd (jobLoop e (List.map_filter (worker e) (filter (\<lambda>t. \<not> limited e (Number t)) ts))
              os' bs w)"
proof (induction ts arbitrary: os os' bs w)
  case Nil
  then show ?case by (simp add: List.map_filter_simps)
next
  case (Cons t ts)
  show ?case
  proof (cases "limited e (Number t)")
    case True
    show ?thesis
    proof (cases "O_Status t = ''NEW''")
      case new: True
      with True Cons.IH [where os = os and os' = os' and bs = bs and w = w] show ?thesis
        by (simp add: List.map_filter_simps limited_worker)
    next
      case False
      with True Cons.IH [where os = "os @ [new_result t]" and os' = os' and bs = bs and w = w] show ?thesis
        by (simp add: List.map_filter_simps limited_worker new_result_def)
    qed
  next
    case False
    show ?thesis
    proof (cases "worker e t")
      case None
      with False Cons.IH [where os = os and os' = os' and bs = bs and w = w] show ?thesis
        by (simp add: List.map_filter_simps)
    next
      case (Some m)
      show ?thesis
      proof (cases m)
        case (Error x)
        with False Some show ?thesis by (simp add: List.map_filter_simps)
      next
        case (Result r)
        show ?thesis
        proof (cases "Accrual r")
          case None
          with False Some Result Cons.IH [where os = "os @ [r]" and os' = "os' @ [r]" and bs = bs and w = w] show ?thesis
            by (simp add: List.map_filter_simps)
        next
          case a: (Some a)
          show ?thesis
          proof (cases "selectBalance e (tables w) (UserID r)")
            case (Found b)
            with False Some Result a
              Cons.IH [where os = "os @ [r]" and os' = "os' @ [r]"
                and bs = "AList.update (UserID r) (b + a) bs"
                and w = "emit (Query (SelectUserBalance (UserID r))) w"]
            show ?thesis
              by (simp add: List.map_filter_simps GetUserBalance_def)
          next
            case NoRows
            with False Some Result a show ?thesis
              by (simp add: List.map_filter_simps GetUserBalance_def)
          next
            case (QueryFailed x)
            with False Some Result a show ?thesis
              by (simp add: List.map_filter_simps GetUserBalance_def)
          qed
        qed
      qed
    qed
  qed
qed

lemma userLoop_skips_limited:
  "map_sum id snd (userLoop (List.map_filter (worker e) ts) os a)
     = map_sum id snd
         (userLoop (List.map_filter (worker e) (filter (\<lambda>t. \<not> limited e (Number t)) ts)) os' a)"
proof (induction ts arbitrary: os os' a)
  case Nil
  then show ?case by (simp add: List.map_filter_simps)
next
  case (Cons t ts)
  show ?case
  proof (cases "limited e (Number t)")
    case True
    show ?thesis
    proof (cases "O_Status t = ''NEW''")
      case new: True
      with True Cons.IH [where os = os and a = a and os' = os'] show ?thesis
        by (simp add: List.map_filter_simps limited_worker)
    next
      case False
      with True Cons.IH [where os = "os @ [new_result t]" and a = a and os' = os'] show ?thesis
        by (simp add: List.map_filter_simps limited_worker new_result_def)
    qed
  next
    case False
    show ?thesis
    proof (cases "worker e t")
      case None
      with False Cons.IH [where os = os and a = a and os' = os'] show ?thesis
        by (simp add: List.map_filter_simps)
    next
      case (Some m)
      show ?thesis
      proof (cases m)
        case (Error x)
        with False Some show ?thesis by (simp add: List.map_filter_simps)
      next
        case (Result r)
        with False Some
          Cons.IH [where os = "os @ [r]" and os' = "os' @ [r]"
            and a = "case Accrual r of None \<Rightarrow> a | Some x \<Rightarrow> a + x"]
        show ?thesis
          by (simp add: List.map_filter_simps)
      qed
    qed
  qed
qed

text \<open>
  Claim C4. The user of \<open>queue\<close> has a balance of 100, order 18 stored as NEW and order 26
  stored as PROCESSING, and the accrual service answers 204 for both. The worker sends
  nothing for order 18, and for order 26 the data with status NEW and no accrual that
  \<open>GetAccrualAPI\<close> makes of the answer, since NEW differs from PROCESSING. Either sweep
  returns nil and commits: the balance is 100 as before, the row of order 18 is as
  before, and the row of order 26 has status NEW and no accrual.
\<close>

theorem limited_processing_becomes_new:
  "limited (quiet_env no_content) ''18'' \<and> limited (quiet_env no_content) ''26'' \<and>
   fst (GetProcessingOrders (quiet_env no_content) queue) = Inr (queue_tasks 1) \<and>
   fst (GetUserProcessingOrders (quiet_env no_content) 1 queue) = Inr (queue_tasks 0) \<and>
   map (worker (quiet_env no_content)) (queue_tasks 1)
     = [None,
        Some (Result \<lparr>UserID = 1, Order = ''26'', Status = ''NEW'', Accrual = None\<rparr>)] \<and>
   map status (orders_table (tables queue)) = [''NEW'', ''PROCESSING''] \<and>
   fst (RunUpdateOrdersStatusJob (quiet_env no_content) queue) = Ok \<and>
   tables (snd (RunUpdateOrdersStatusJob (quiet_env no_content) queue))
     = \<lparr>orders_table =
          [\<lparr>order_number = ''18'', order_uuid = 1, accrual = Some 0, status = ''NEW''\<rparr>,
           \<lparr>order_number = ''26'', order_uuid = 1, accrual = None, status = ''NEW''\<rparr>],
        balance_table = [\<lparr>balance_uuid = 1, user_balance = 100\<rparr>],
        withdrawals_table = []\<rparr> \<and>
   fst (CheckUpdateUserOrders (quiet_env no_content) 1 queue) = Ok \<and>
   tables (snd (CheckUpdateUserOrders (quiet_env no_content) 1 queue))
     = \<lparr>orders_table =
          [\<lparr>order_number = ''18'', order_uuid = 1, accrual = Some 0, status = ''NEW''\<rparr>,
           \<lparr>order_number = ''26'', order_uuid = 1, accrual = None, status = ''NEW''\<rparr>],
        balance_table = [\<lparr>balance_uuid = 1, user_balance = 100\<rparr>],
        withdrawals_table = []\<rparr>"
  by (simp add: RunUpdateOrdersStatusJob_def CheckUpdateUserOrders_def
      GetProcessingOrders_def GetUserProcessingOrders_def startWorkers_def
      List.map_filter_def worker_def GetAccrualAPI_def GetUserBalance_def selectBalance_def
      withTransaction_def jobTx_def userTx_def UpdateUserBalance_def
      exec_def emit_def limited_def quiet_env_def no_content_def queue_def queue_tasks_def)

end
